theory Spec2Isabelle
  imports Main
begin

section \<open>The persistent event store (persistentEventStore.ts)\<close>

text \<open>
  The store keeps one table, \<open>McpEvents\<close>, in a SQL Server database reached through a
  process-wide connection pool. The model keeps the table as the list of its rows in
  insertion order and the pool as the value of the module's variable \<open>pool\<close>.
  What the surroundings decide (the clock, the random suffix, whether the pool connects,
  whether the driver rejects a statement, what JSON.stringify and JSON.parse do, what the
  \<open>send\<close> callback does) is passed in, so every theorem holds for each of their choices.
\<close>

subsection \<open>Errors, rows, the pool\<close>

text \<open>
  The values the code can see thrown: what the mssql driver raises for the pool
  (\<open>ConnectionError\<close>) and for a request (\<open>RequestError\<close>), and what the JavaScript
  runtime raises (\<open>TypeError\<close>, \<open>SyntaxError\<close>). The code wraps none of them.
\<close>

datatype error =
    ConnectionError string
  | RequestError string
  | TypeError string
  | SyntaxError string

text \<open>
  One row of \<open>McpEvents\<close>. \<open>StoredAt\<close> is a time in milliseconds. The model compares
  strings character by character; a collation of the database that ignores case or
  trailing blanks identifies more ids than that.
\<close>

record db_row =
  EventId :: string
  StreamId :: string
  MessageJson :: string
  StoredAt :: nat

text \<open>The module variable \<open>pool\<close>: \<open>null\<close>, or a connected pool.\<close>

datatype pool_state = NoPool | Connected

record store =
  pool :: pool_state
  table :: "db_row list"

text \<open>
  \<open>getDbPool\<close>: a pool that exists is returned as it is; otherwise a new one is connected.
  \<open>connect\<close> is what \<open>pool.connect()\<close> does this time: \<open>Some err\<close> when it rejects with
  \<open>err\<close>, in which case \<open>pool\<close> is reset to \<open>null\<close> and \<open>err\<close> is thrown again.
\<close>

definition getDbPool :: "error option \<Rightarrow> pool_state \<Rightarrow> (error + unit) \<times> pool_state" where
  "getDbPool connect p =
     (case p of
        Connected \<Rightarrow> (Inr (), Connected)
      | NoPool \<Rightarrow>
          (case connect of
             Some err \<Rightarrow> (Inl err, NoPool)
           | None \<Rightarrow> (Inr (), Connected)))"

subsection \<open>Event ids\<close>

text \<open>\<open>String(n)\<close> for a non-negative integer: its decimal digits.\<close>

fun decimal :: "nat \<Rightarrow> string" where
  "decimal n =
     (if n < 10 then [''0123456789'' ! n]
      else decimal (n div 10) @ [''0123456789'' ! (n mod 10)])"

declare decimal.simps [simp del]

text \<open>
  \<open>generateEventId\<close>: the stream id, \<open>Date.now()\<close> and the first eight characters of
  \<open>randomUUID()\<close>, joined by underscores.
\<close>

definition generateEventId :: "string \<Rightarrow> nat \<Rightarrow> string \<Rightarrow> string" where
  "generateEventId streamId now uuid = streamId @ ''_'' @ decimal now @ ''_'' @ take 8 uuid"

text \<open>
  \<open>s.split(sep)\<close> for a one-character separator: the pieces between the separators,
  never an empty array (the empty string splits into one empty piece).
\<close>

fun split :: "char \<Rightarrow> string \<Rightarrow> string list" where
  "split sep [] = [[]]"
| "split sep (c # cs) =
     (if c = sep then [] # split sep cs
      else (case split sep cs of
              [] \<Rightarrow> [[c]]
            | w # ws \<Rightarrow> (c # w) # ws))"

text \<open>
  \<open>lastEventId.split('_')[0]\<close>, the stream id that \<open>replayEventsAfter\<close> reads out of an
  event id. An index past the end of a JS array gives \<open>undefined\<close>, which the code's
  test \<open>!streamId\<close> treats like the empty string.
\<close>

definition extractStreamId :: "string \<Rightarrow> string" where
  "extractStreamId lastEventId =
     (case split (CHR ''_'') lastEventId of [] \<Rightarrow> [] | w # ws \<Rightarrow> w)"

text \<open>
  The format of an event id that the comment of \<open>generateEventId\<close> states,
  \<open>streamId_timestampMillis_randomSuffix\<close>: the last two pieces between underscores are
  a decimal number and eight hexadecimal digits, and what stands before them, the stream
  id, is not empty. No code of the store tests it.
\<close>

definition has_event_id_format :: "string \<Rightarrow> bool" where
  "has_event_id_format eventId \<longleftrightarrow>
     (case rev (split (CHR ''_'') eventId) of
        suffix # millis # streamParts \<Rightarrow>
          streamParts \<noteq> [] \<and> streamParts \<noteq> [[]] \<and>
          millis \<noteq> [] \<and> set millis \<subseteq> set ''0123456789'' \<and>
          length suffix = 8 \<and> set suffix \<subseteq> set ''0123456789abcdef''
      | _ \<Rightarrow> False)"

subsection \<open>Appending: storeEvent\<close>

text \<open>
  The INSERT. \<open>EventId\<close> is the table's primary key, so a row whose id is in the table
  already is refused by the database. \<open>fault\<close> is any other reason for which the driver
  rejects the statement this time (a broken connection, a timeout, a value wider than
  its column).
\<close>

definition insert_row :: "error option \<Rightarrow> db_row \<Rightarrow> db_row list \<Rightarrow> error + db_row list" where
  "insert_row fault r t =
     (case fault of
        Some err \<Rightarrow> Inl err
      | None \<Rightarrow>
          (if EventId r \<in> set (map EventId t)
           then Inl (RequestError ''Violation of PRIMARY KEY constraint'')
           else Inr (t @ [r])))"

text \<open>
  What one call of \<open>storeEvent\<close> reads from its surroundings: \<open>Date.now()\<close>,
  \<open>randomUUID()\<close>, the time that the database stores for \<open>new Date()\<close>, what
  \<open>pool.connect()\<close> does if it is called, and whether the driver rejects the INSERT.
\<close>

record append_env =
  now :: nat
  uuid :: string
  date :: nat
  connect :: "error option"
  fault :: "error option"

text \<open>
  \<open>storeEvent\<close>. \<open>stringify\<close> is JSON.stringify on the message type (\<open>Inl\<close> when it
  throws, which happens before the \<open>try\<close> block). Every error caught in the \<open>try\<close> block
  is logged and thrown again unchanged.
\<close>

definition storeEvent ::
  "('m \<Rightarrow> error + string) \<Rightarrow> append_env \<Rightarrow> string \<Rightarrow> 'm \<Rightarrow> store \<Rightarrow> (error + string) \<times> store" where
  "storeEvent stringify env streamId message st =
     (let eventId = generateEventId streamId (now env) (uuid env) in
      case stringify message of
        Inl err \<Rightarrow> (Inl err, st)
      | Inr messageJson \<Rightarrow>
          (case getDbPool (connect env) (pool st) of
             (Inl err, p) \<Rightarrow> (Inl err, st\<lparr>pool := p\<rparr>)
           | (Inr u, p) \<Rightarrow>
               (case insert_row (fault env)
                       \<lparr>EventId = eventId, StreamId = streamId,
                        MessageJson = messageJson, StoredAt = date env\<rparr> (table st) of
                  Inl err \<Rightarrow> (Inl err, st\<lparr>pool := p\<rparr>)
                | Inr t \<Rightarrow> (Inr eventId, \<lparr>pool = p, table = t\<rparr>))))"

subsection \<open>Replaying: replayEventsAfter\<close>

text \<open>
  The SELECT of \<open>replayEventsAfter\<close>. The scalar subquery looks for the row of
  \<open>lastEventId\<close> in the stream: with no such row it is NULL, the comparison
  \<open>StoredAt > NULL\<close> holds for no row and the result is empty; with more than one the
  database raises an error (the primary key excludes this in a table built by INSERTs).
  The rows are ordered by \<open>StoredAt\<close>; rows with equal \<open>StoredAt\<close> are kept in insertion
  order here, an order SQL leaves open. The result has the columns \<open>EventId\<close> and
  \<open>MessageJson\<close>.
\<close>

definition select_after :: "string \<Rightarrow> string \<Rightarrow> db_row list \<Rightarrow> error + (string \<times> string) list" where
  "select_after streamId lastEventId t =
     (case filter (\<lambda>le. EventId le = lastEventId \<and> StreamId le = streamId) t of
        [] \<Rightarrow> Inr []
      | [le] \<Rightarrow>
          Inr (map (\<lambda>e. (EventId e, MessageJson e))
                 (sort_key StoredAt
                    (filter (\<lambda>e. StreamId e = streamId \<and> StoredAt le < StoredAt e) t)))
      | le # le' # les \<Rightarrow> Inl (RequestError ''Subquery returned more than 1 value''))"

text \<open>
  The \<open>send\<close> callback acts on the state of the client connection: it resolves (\<open>None\<close>)
  or throws (\<open>Some err\<close>), and leaves a new state either way. The loop awaits each call
  before the next, so the state is threaded through the calls in order.
\<close>

type_synonym ('m, 's) sender = "string \<Rightarrow> 'm \<Rightarrow> 's \<Rightarrow> error option \<times> 's"

text \<open>
  The loop over the record set, on \<open>(replayedCount, client state)\<close>. \<open>parse\<close> is JSON.parse
  (\<open>None\<close> when it throws). Both JSON.parse and \<open>send\<close> are inside the loop's \<open>try\<close>:
  when either throws, the error is logged and the loop goes on with the next row.
\<close>

fun replay_rows ::
  "(string \<Rightarrow> 'm option) \<Rightarrow> ('m, 's) sender \<Rightarrow> (string \<times> string) list \<Rightarrow> nat \<times> 's \<Rightarrow> nat \<times> 's" where
  "replay_rows parse send [] (n, s) = (n, s)"
| "replay_rows parse send ((eventId, messageJson) # rows) (n, s) =
     (case parse messageJson of
        None \<Rightarrow> replay_rows parse send rows (n, s)
      | Some message \<Rightarrow>
          (case send eventId message s of
             (None, s') \<Rightarrow> replay_rows parse send rows (Suc n, s')
           | (Some err, s') \<Rightarrow> replay_rows parse send rows (n, s')))"

text \<open>
  What one call of \<open>replayEventsAfter\<close> reads from its surroundings: what
  \<open>pool.connect()\<close> does if it is called, and whether the driver rejects the SELECT.
\<close>

record replay_env =
  rconnect :: "error option"
  rfault :: "error option"

text \<open>
  What a call of \<open>replayEventsAfter\<close> leaves: the value returned or the error thrown,
  the count \<open>replayedCount\<close> it logs (\<open>None\<close> when that line is not reached), the pool and
  the client state.
\<close>

record 's replay_result =
  returned :: "error + string"
  replayedCount :: "nat option"
  pool_after :: pool_state
  client_after :: 's

definition replayEventsAfter ::
  "(string \<Rightarrow> 'm option) \<Rightarrow> replay_env \<Rightarrow> string \<Rightarrow> ('m, 's) sender \<Rightarrow> store \<Rightarrow> 's \<Rightarrow> 's replay_result" where
  "replayEventsAfter parse env lastEventId send st s =
     (if lastEventId = [] then
        \<lparr>returned = Inr [], replayedCount = None, pool_after = pool st, client_after = s\<rparr>
      else
        (let streamId = extractStreamId lastEventId in
         if streamId = [] then
           \<lparr>returned = Inr [], replayedCount = None, pool_after = pool st, client_after = s\<rparr>
         else
           (case getDbPool (rconnect env) (pool st) of
              (Inl err, p) \<Rightarrow>
                \<lparr>returned = Inl err, replayedCount = None, pool_after = p, client_after = s\<rparr>
            | (Inr u, p) \<Rightarrow>
                (case (case rfault env of
                         Some err \<Rightarrow> Inl err
                       | None \<Rightarrow> select_after streamId lastEventId (table st)) of
                   Inl err \<Rightarrow>
                     \<lparr>returned = Inl err, replayedCount = None, pool_after = p, client_after = s\<rparr>
                 | Inr rows \<Rightarrow>
                     (case replay_rows parse send rows (0, s) of
                        (n, s') \<Rightarrow>
                          \<lparr>returned = Inr streamId, replayedCount = Some n,
                           pool_after = p, client_after = s'\<rparr>)))))"

text \<open>
  A client that records every call of \<open>send\<close> made on it, in call order, in front of
  whatever the callback \<open>send\<close> does: the history of deliveries.
\<close>

definition recorded :: "('m, 's) sender \<Rightarrow> ('m, (string \<times> 'm) list \<times> 's) sender" where
  "recorded send eventId message =
     (\<lambda>(calls, s). case send eventId message s of
                     (r, s') \<Rightarrow> (r, (calls @ [(eventId, message)], s')))"

text \<open>
  The events of a record set whose payload JSON.parse accepts, with the parsed payload:
  the calls of \<open>send\<close> that the loop makes on it, in order.
\<close>

fun deliverable :: "(string \<Rightarrow> 'm option) \<Rightarrow> (string \<times> string) list \<Rightarrow> (string \<times> 'm) list" where
  "deliverable parse [] = []"
| "deliverable parse ((eventId, messageJson) # rows) =
     (case parse messageJson of
        None \<Rightarrow> deliverable parse rows
      | Some message \<Rightarrow> (eventId, message) # deliverable parse rows)"

text \<open>
  Calls of \<open>send\<close> made one at a time, each on the client state that the one before
  left, whether it resolved or threw.
\<close>

fun deliver_all :: "('m, 's) sender \<Rightarrow> (string \<times> 'm) list \<Rightarrow> 's \<Rightarrow> 's" where
  "deliver_all send [] s = s"
| "deliver_all send ((eventId, message) # evs) s = deliver_all send evs (snd (send eventId message s))"

subsection \<open>Sequences of appends\<close>

text \<open>
  The handler that \<open>getDbPool\<close> registers for the pool's \<open>error\<close> event: it resets the
  variable \<open>pool\<close>, so that the next call connects again. The event comes from the
  driver at any time between two calls.
\<close>

definition on_pool_error :: "store \<Rightarrow> store" where
  "on_pool_error st = st\<lparr>pool := NoPool\<rparr>"

text \<open>
  What happens to the store in a run: calls of \<open>storeEvent\<close>, each with what it reads from
  its surroundings, its stream and its message, and \<open>error\<close> events of the pool in between.
  The steps are run one after the other; the results are what the callers of
  \<open>storeEvent\<close> get, in call order.
\<close>

datatype 'm step = Append append_env string 'm | PoolError

fun run_appends ::
  "('m \<Rightarrow> error + string) \<Rightarrow> 'm step list \<Rightarrow> store \<Rightarrow> (error + string) list \<times> store" where
  "run_appends stringify [] st = ([], st)"
| "run_appends stringify (Append env streamId message # steps) st =
     (case storeEvent stringify env streamId message st of
        (r, st') \<Rightarrow>
          (case run_appends stringify steps st' of
             (rs, st'') \<Rightarrow> (r # rs, st'')))"
| "run_appends stringify (PoolError # steps) st = run_appends stringify steps (on_pool_error st)"

text \<open>
  The events of one stream as the callers in such a run know them: for each call on that
  stream that returned an event id, the id and the message, in call order.
\<close>

fun appended :: "string \<Rightarrow> 'm step list \<Rightarrow> (error + string) list \<Rightarrow> (string \<times> 'm) list" where
  "appended stream [] rs = []"
| "appended stream (PoolError # steps) rs = appended stream steps rs"
| "appended stream (Append env streamId message # steps) [] = []"
| "appended stream (Append env streamId message # steps) (Inl err # rs) = appended stream steps rs"
| "appended stream (Append env streamId message # steps) (Inr eventId # rs) =
     (if streamId = stream then (eventId, message) # appended stream steps rs
      else appended stream steps rs)"

subsection \<open>Concrete surroundings for the examples\<close>

text \<open>
  For the examples a message is a text without characters that JSON escapes:
  JSON.stringify writes it between double quotes and never throws, JSON.parse accepts
  exactly a text between double quotes.
\<close>

definition quoted :: "string \<Rightarrow> string" where
  "quoted message = CHR 0x22 # message @ [CHR 0x22]"

definition stringify_text :: "string \<Rightarrow> error + string" where
  "stringify_text message = Inr (quoted message)"

definition parse_text :: "string \<Rightarrow> string option" where
  "parse_text json =
     (case json of
        [] \<Rightarrow> None
      | c # cs \<Rightarrow>
          (if c = CHR 0x22 \<and> cs \<noteq> [] \<and> last cs = CHR 0x22 then Some (butlast cs) else None))"

text \<open>A call of \<open>storeEvent\<close> at clock reading \<open>t\<close>, with a working database.\<close>

definition env_at :: "nat \<Rightarrow> string \<Rightarrow> append_env" where
  "env_at t u = \<lparr>now = t, uuid = u, date = t, connect = None, fault = None\<rparr>"

text \<open>A call of \<open>replayEventsAfter\<close> with a working database.\<close>

definition env_ok :: replay_env where
  "env_ok = \<lparr>rconnect = None, rfault = None\<rparr>"

text \<open>A client whose \<open>send\<close> always resolves, and one whose \<open>send\<close> throws for one event id.\<close>

definition send_ok :: "(string, unit) sender" where
  "send_ok eventId message s = (None, s)"

definition send_failing_on :: "string \<Rightarrow> (string, unit) sender" where
  "send_failing_on bad eventId message s =
     (if eventId = bad then (Some (TypeError ''write after end''), s) else (None, s))"

text \<open>
  The scenario of the specification: three appends to the stream \<open>s1\<close> and one to \<open>s2\<close>,
  one second apart, with an \<open>error\<close> event of the pool in between.
\<close>

definition scenario :: "string step list" where
  "scenario =
     [Append (env_at 1000 ''0a1b2c3d-0000-4000-8000-000000000001'') ''s1'' ''A'',
      Append (env_at 2000 ''1b2c3d4e-0000-4000-8000-000000000002'') ''s1'' ''B'',
      PoolError,
      Append (env_at 3000 ''2c3d4e5f-0000-4000-8000-000000000003'') ''s2'' ''X'',
      Append (env_at 4000 ''3d4e5f6a-0000-4000-8000-000000000004'') ''s1'' ''C'']"

definition scenario_table :: "db_row list" where
  "scenario_table =
     [\<lparr>EventId = ''s1_1000_0a1b2c3d'', StreamId = ''s1'', MessageJson = quoted ''A'', StoredAt = 1000\<rparr>,
      \<lparr>EventId = ''s1_2000_1b2c3d4e'', StreamId = ''s1'', MessageJson = quoted ''B'', StoredAt = 2000\<rparr>,
      \<lparr>EventId = ''s2_3000_2c3d4e5f'', StreamId = ''s2'', MessageJson = quoted ''X'', StoredAt = 3000\<rparr>,
      \<lparr>EventId = ''s1_4000_3d4e5f6a'', StreamId = ''s1'', MessageJson = quoted ''C'', StoredAt = 4000\<rparr>]"

text \<open>Two appends to \<open>s1\<close> within the same millisecond.\<close>

definition burst :: "string step list" where
  "burst =
     [Append (env_at 1000 ''0a1b2c3d-0000-4000-8000-000000000001'') ''s1'' ''A'',
      Append (env_at 1000 ''1b2c3d4e-0000-4000-8000-000000000002'') ''s1'' ''B'']"

definition burst_table :: "db_row list" where
  "burst_table =
     [\<lparr>EventId = ''s1_1000_0a1b2c3d'', StreamId = ''s1'', MessageJson = quoted ''A'', StoredAt = 1000\<rparr>,
      \<lparr>EventId = ''s1_1000_1b2c3d4e'', StreamId = ''s1'', MessageJson = quoted ''B'', StoredAt = 1000\<rparr>]"

text \<open>The table of the scenario after the payload of its second event was damaged.\<close>

definition corrupt_table :: "db_row list" where
  "corrupt_table =
     [\<lparr>EventId = ''s1_1000_0a1b2c3d'', StreamId = ''s1'', MessageJson = quoted ''A'', StoredAt = 1000\<rparr>,
      \<lparr>EventId = ''s1_2000_1b2c3d4e'', StreamId = ''s1'', MessageJson = ''{oops'', StoredAt = 2000\<rparr>,
      \<lparr>EventId = ''s2_3000_2c3d4e5f'', StreamId = ''s2'', MessageJson = quoted ''X'', StoredAt = 3000\<rparr>,
      \<lparr>EventId = ''s1_4000_3d4e5f6a'', StreamId = ''s1'', MessageJson = quoted ''C'', StoredAt = 4000\<rparr>]"

text \<open>
  A call of \<open>storeEvent\<close> for which the pool cannot connect: \<open>pool.connect()\<close> rejects
  with a \<open>ConnectionError\<close> of code \<open>ESOCKET\<close>.
\<close>

definition env_pool_down :: append_env where
  "env_pool_down =
     \<lparr>now = 1000, uuid = ''0a1b2c3d-0000-4000-8000-000000000001'', date = 1000,
      connect = Some (ConnectionError ''ESOCKET''), fault = None\<rparr>"

text \<open>
  For the examples with numbers a message is a JSON-RPC response
  \<open>{jsonrpc: "2.0", id: i, result: {value: v}}\<close> whose id is a non-negative integer and
  whose value is a non-negative integer, \<open>NaN\<close> or \<open>null\<close>. JSON.stringify writes the
  properties in this order without blanks, and writes \<open>NaN\<close> as \<open>null\<close>. JSON.parse is
  taken on the texts that JSON.stringify writes for such messages: it reads \<open>null\<close> as
  \<open>null\<close> and decimal digits as the number.
\<close>

datatype js_value = JsNumber nat | JsNaN | JsNull

datatype reply = Reply nat js_value

definition reply_head :: string where
  "reply_head = ''{'' @ quoted ''jsonrpc'' @ '':'' @ quoted ''2.0'' @ '','' @ quoted ''id'' @ '':''"

definition reply_middle :: string where
  "reply_middle = '','' @ quoted ''result'' @ '':{'' @ quoted ''value'' @ '':''"

definition stringify_reply :: "reply \<Rightarrow> error + string" where
  "stringify_reply message =
     (case message of
        Reply i v \<Rightarrow>
          Inr (reply_head @ decimal i @ reply_middle @
               (case v of JsNumber n \<Rightarrow> decimal n | JsNaN \<Rightarrow> ''null'' | JsNull \<Rightarrow> ''null'') @
               ''}}''))"

fun strip_prefix :: "string \<Rightarrow> string \<Rightarrow> string option" where
  "strip_prefix [] s = Some s"
| "strip_prefix (p # ps) [] = None"
| "strip_prefix (p # ps) (c # cs) = (if p = c then strip_prefix ps cs else None)"

definition digit_of :: "char \<Rightarrow> nat option" where
  "digit_of c = map_of (zip ''0123456789'' [0, 1, 2, 3, 4, 5, 6, 7, 8, 9]) c"

fun read_digits :: "nat \<Rightarrow> string \<Rightarrow> nat option" where
  "read_digits n [] = Some n"
| "read_digits n (c # cs) =
     (case digit_of c of
        None \<Rightarrow> None
      | Some d \<Rightarrow> read_digits (10 * n + d) cs)"

definition read_decimal :: "string \<Rightarrow> nat option" where
  "read_decimal s =
     (case s of
        [] \<Rightarrow> None
      | c # cs \<Rightarrow> (if c = CHR ''0'' \<and> cs \<noteq> [] then None else read_digits 0 s))"

definition parse_reply :: "string \<Rightarrow> reply option" where
  "parse_reply json =
     (case strip_prefix reply_head json of
        None \<Rightarrow> None
      | Some r1 \<Rightarrow>
          (case read_decimal (takeWhile (\<lambda>c. digit_of c \<noteq> None) r1) of
             None \<Rightarrow> None
           | Some i \<Rightarrow>
               (case strip_prefix reply_middle (dropWhile (\<lambda>c. digit_of c \<noteq> None) r1) of
                  None \<Rightarrow> None
                | Some r2 \<Rightarrow>
                    (if r2 = ''null}}'' then Some (Reply i JsNull)
                     else
                       (case read_decimal (takeWhile (\<lambda>c. digit_of c \<noteq> None) r2) of
                          None \<Rightarrow> None
                        | Some n \<Rightarrow>
                            (if dropWhile (\<lambda>c. digit_of c \<noteq> None) r2 = ''}}''
                             then Some (Reply i (JsNumber n)) else None))))))"

text \<open>
  A client of such messages whose \<open>send\<close> always resolves, and a table of three
  responses of the stream \<open>s1\<close>: the values 42, \<open>null\<close> and 7.
\<close>

definition send_quiet :: "('m, unit) sender" where
  "send_quiet eventId message s = (None, s)"

definition reply_table :: "db_row list" where
  "reply_table =
     [\<lparr>EventId = ''s1_1000_0a1b2c3d'', StreamId = ''s1'',
       MessageJson = reply_head @ ''1'' @ reply_middle @ ''42}}'', StoredAt = 1000\<rparr>,
      \<lparr>EventId = ''s1_2000_1b2c3d4e'', StreamId = ''s1'',
       MessageJson = reply_head @ ''2'' @ reply_middle @ ''null}}'', StoredAt = 2000\<rparr>,
      \<lparr>EventId = ''s1_3000_2c3d4e5f'', StreamId = ''s1'',
       MessageJson = reply_head @ ''3'' @ reply_middle @ ''7}}'', StoredAt = 3000\<rparr>]"

section \<open>The session registry (index.ts)\<close>

text \<open>
  \<open>transports\<close> is a plain JavaScript object used as a table from session ids to
  transports. The transport class belongs to the protocol SDK; of a transport the model
  keeps what index.ts reads and what its callbacks close over: the field \<open>sessionId\<close>
  (\<open>undefined\<close> until the SDK initialises the session) and the value \<open>newSessionId\<close> that
  its \<open>sessionIdGenerator\<close> returns.
\<close>

record transport =
  sessionId :: "string option"
  generator :: string

type_synonym registry = "string \<rightharpoonup> transport"

text \<open>
  The object is created by the literal \<open>{}\<close>, so reading \<open>transports[key]\<close> finds the
  properties of \<open>Object.prototype\<close> for a key that is not the object's own: a function or
  an object, truthy, and not a transport.
\<close>

definition object_prototype_keys :: "string list" where
  "object_prototype_keys =
     [''constructor'', ''__proto__'', ''hasOwnProperty'', ''isPrototypeOf'',
      ''propertyIsEnumerable'', ''toLocaleString'', ''toString'', ''valueOf'',
      ''__defineGetter__'', ''__defineSetter__'', ''__lookupGetter__'', ''__lookupSetter__'']"

datatype lookup = Undefined | Inherited | Own transport

definition lookup_transport :: "registry \<Rightarrow> string \<Rightarrow> lookup" where
  "lookup_transport reg key =
     (case reg key of
        Some tr \<Rightarrow> Own tr
      | None \<Rightarrow> (if key \<in> set object_prototype_keys then Inherited else Undefined))"

text \<open>
  \<open>randomUUID()\<close> returns 36 characters: lower-case hexadecimal digits in groups of
  8, 4, 4, 4 and 12, with hyphens between the groups.
\<close>

definition is_uuid :: "string \<Rightarrow> bool" where
  "is_uuid s \<longleftrightarrow>
     length s = 36 \<and> s ! 8 = CHR ''-'' \<and> s ! 13 = CHR ''-'' \<and> s ! 18 = CHR ''-'' \<and>
     s ! 23 = CHR ''-'' \<and> set s \<subseteq> set ''0123456789abcdef-''"

text \<open>
  The two callbacks that the POST handler gives a new transport. \<open>onsessioninitialized\<close>
  stores the transport under the id the SDK passes, which is what the generator
  returned. \<open>onclose\<close> deletes the entry of the transport's session id, if the transport
  has one (an empty string is falsy); \<open>delete\<close> of a key that the object does not own
  changes nothing and does not throw.
\<close>

definition onsessioninitialized :: "transport \<Rightarrow> string \<Rightarrow> registry \<Rightarrow> registry" where
  "onsessioninitialized tr initializedSessionId reg = reg(initializedSessionId \<mapsto> tr)"

definition onclose :: "transport \<Rightarrow> registry \<Rightarrow> registry" where
  "onclose tr reg =
     (case sessionId tr of
        None \<Rightarrow> reg
      | Some sid \<Rightarrow> (if sid = [] then reg else reg(sid := None)))"

text \<open>
  What the handlers read of a request: the header \<open>mcp-session-id\<close> and whether the body
  is an initialize request.
\<close>

record request =
  header :: "string option"
  initialize :: bool

text \<open>What the handlers answer: a JSON-RPC error, a text, whatever the transport wrote,
  or nothing (the handler's promise rejected before any answer).\<close>

datatype response =
    Json nat int string
  | Text nat string
  | FromTransport
  | NoResponse

text \<open>
  \<open>transport.handleRequest\<close> is the SDK's. What index.ts can observe of one call is
  which of the two callbacks it fires, in which order, whether it throws, and whether
  the response headers were sent by then. On initialisation the SDK sets
  \<open>transport.sessionId\<close> to what the generator returns and passes it to
  \<open>onsessioninitialized\<close>.
\<close>

datatype callback = SessionInitialized | Closed

record handled =
  callbacks :: "callback list"
  threw :: bool
  headersSent :: bool

fun fire :: "transport \<times> registry \<Rightarrow> callback \<Rightarrow> transport \<times> registry" where
  "fire (tr, reg) SessionInitialized =
     (tr\<lparr>sessionId := Some (generator tr)\<rparr>,
      onsessioninitialized (tr\<lparr>sessionId := Some (generator tr)\<rparr>) (generator tr) reg)"
| "fire (tr, reg) Closed = (tr, onclose tr reg)"

text \<open>
  The \<open>try\<close> block around \<open>transport.handleRequest\<close>, shared by both handlers: an error
  is answered with \<open>failure\<close> unless the headers are sent already.
\<close>

definition handle_with ::
  "response \<Rightarrow> (transport \<Rightarrow> request \<Rightarrow> handled) \<Rightarrow> transport \<Rightarrow> request \<Rightarrow> registry \<Rightarrow> response \<times> registry" where
  "handle_with failure handleRequest tr req reg =
     (let h = handleRequest tr req in
      (if threw h \<and> \<not> headersSent h then failure else FromTransport,
       snd (foldl fire (tr, reg) (callbacks h))))"

text \<open>
  The handler of \<open>POST /mcp\<close>. \<open>newSessionId\<close> is what \<open>randomUUID()\<close> returns this time and
  \<open>connects\<close> whether \<open>mcpServer.connect\<close> resolves (it is awaited outside the \<open>try\<close>).
  A value found for the key that is not a transport has no method \<open>handleRequest\<close>:
  the call throws a TypeError inside the \<open>try\<close>.
\<close>

definition post_mcp ::
  "(transport \<Rightarrow> request \<Rightarrow> handled) \<Rightarrow> string \<Rightarrow> bool \<Rightarrow> request \<Rightarrow> registry \<Rightarrow> response \<times> registry" where
  "post_mcp handleRequest newSessionId connects req reg =
     (case (case header req of
              None \<Rightarrow> Undefined
            | Some sid \<Rightarrow> (if sid = [] then Undefined else lookup_transport reg sid)) of
        Own tr \<Rightarrow>
          handle_with (Json 500 (- 32603) ''Internal Server Error'') handleRequest tr req reg
      | Inherited \<Rightarrow> (Json 500 (- 32603) ''Internal Server Error'', reg)
      | Undefined \<Rightarrow>
          (if (header req = None \<or> header req = Some []) \<and> initialize req then
             (if connects then
                handle_with (Json 500 (- 32603) ''Internal Server Error'') handleRequest
                  \<lparr>sessionId = None, generator = newSessionId\<rparr> req reg
              else (NoResponse, reg))
           else
             (Json 400 (- 32000)
                ''Bad Request: No valid session ID provided or not an initialization request.'',
              reg)))"

text \<open>\<open>handleSessionRequest\<close>, the handler of \<open>GET /mcp\<close> and \<open>DELETE /mcp\<close>.\<close>

definition handleSessionRequest ::
  "(transport \<Rightarrow> request \<Rightarrow> handled) \<Rightarrow> request \<Rightarrow> registry \<Rightarrow> response \<times> registry" where
  "handleSessionRequest handleRequest req reg =
     (case (case header req of
              None \<Rightarrow> Undefined
            | Some sid \<Rightarrow> (if sid = [] then Undefined else lookup_transport reg sid)) of
        Undefined \<Rightarrow> (Text 400 ''Invalid or missing session ID'', reg)
      | Inherited \<Rightarrow> (Text 500 ''Internal Server Error'', reg)
      | Own tr \<Rightarrow> handle_with (Text 500 ''Internal Server Error'') handleRequest tr req reg)"

section \<open>Properties of the event store\<close>

subsection \<open>Event ids and the stream id read out of them\<close>

lemma split_not_Nil: "split sep s \<noteq> []"
  by (induction s) (auto split: list.splits)

lemma hd_split: "hd (split sep s) = takeWhile (\<lambda>c. c \<noteq> sep) s"
  by (induction s) (auto simp: split_not_Nil split: list.splits)

lemma extractStreamId_takeWhile: "extractStreamId s = takeWhile (\<lambda>c. c \<noteq> CHR ''_'') s"
  using hd_split [of "CHR ''_''" s] split_not_Nil [of "CHR ''_''" s]
  by (auto simp: extractStreamId_def split: list.splits)

lemma extractStreamId_Nil: "extractStreamId [] = []"
  by (simp add: extractStreamId_def)

text \<open>
  An event id generated for a stream id without underscore gives the stream id back;
  the stream id read out of an event id is empty exactly when the event id is empty or
  starts with an underscore.
\<close>

lemma extractStreamId_generateEventId:
  assumes "CHR ''_'' \<notin> set streamId"
  shows "extractStreamId (generateEventId streamId n u) = streamId"
proof -
  have "\<forall>c \<in> set streamId. c \<noteq> CHR ''_''" using assms by auto
  then show ?thesis
    by (simp add: extractStreamId_takeWhile generateEventId_def takeWhile_append2)
qed

lemma extractStreamId_empty_iff:
  "extractStreamId s = [] \<longleftrightarrow> s = [] \<or> hd s = CHR ''_''"
  by (cases s) (auto simp: extractStreamId_takeWhile)

text \<open>
  Every event id generated for a stream id that is not empty, with a random suffix of
  eight hexadecimal digits, has the format.
\<close>

lemma split_append:
  "split sep (xs @ sep # ys) = split sep xs @ split sep ys"
  by (induction xs) (auto simp: split_not_Nil split: list.splits)

lemma split_no_separator: "sep \<notin> set ys \<Longrightarrow> split sep ys = [ys]"
  by (induction ys) auto

lemma split_single_empty: "split sep s = [[]] \<longleftrightarrow> s = []"
  by (cases s) (auto simp: split_not_Nil split: list.splits)

lemma decimal_digits: "decimal n \<noteq> [] \<and> set (decimal n) \<subseteq> set ''0123456789''"
proof (induction n rule: decimal.induct)
  case (1 n)
  have d: "''0123456789'' ! k \<in> set ''0123456789''" if "k < 10" for k
    using that nth_mem [of k "''0123456789''"] by simp
  show ?case
  proof (cases "n < 10")
    case True
    with d [of n] show ?thesis by (subst (1 2) decimal.simps) simp
  next
    case False
    have "n mod 10 < 10" by simp
    with d [of "n mod 10"] 1 False show ?thesis
      by (subst (1 2) decimal.simps) simp
  qed
qed

lemma generated_id_has_format:
  assumes "streamId \<noteq> []" and "length (take 8 u) = 8" and "set (take 8 u) \<subseteq> set ''0123456789abcdef''"
  shows "has_event_id_format (generateEventId streamId n u)"
proof -
  have u: "CHR ''_'' \<notin> set (take 8 u)" using assms(3) by auto
  have m: "CHR ''_'' \<notin> set (decimal n)" using decimal_digits [of n] by auto
  have "split (CHR ''_'') (generateEventId streamId n u)
          = split (CHR ''_'') streamId @ [decimal n, take 8 u]"
    unfolding generateEventId_def
    using split_append [of "CHR ''_''" streamId "decimal n @ CHR ''_'' # take 8 u"]
      split_append [of "CHR ''_''" "decimal n" "take 8 u"]
      split_no_separator [OF u] split_no_separator [OF m]
    by simp
  then have r: "rev (split (CHR ''_'') (generateEventId streamId n u))
          = take 8 u # decimal n # rev (split (CHR ''_'') streamId)"
    by simp
  have "rev (split (CHR ''_'') streamId) \<noteq> []"
    by (simp add: split_not_Nil)
  moreover have "rev (split (CHR ''_'') streamId) \<noteq> [[]]"
    using split_single_empty [of "CHR ''_''" streamId] assms(1)
    by (metis rev_singleton_conv)
  ultimately show ?thesis
    using decimal_digits [of n] assms(2,3)
    by (simp add: has_event_id_format_def r)
qed

subsection \<open>The delivery loop\<close>

lemma replay_rows_append:
  "replay_rows parse send (xs @ ys) ns = replay_rows parse send ys (replay_rows parse send xs ns)"
proof (induction xs arbitrary: ns)
  case Nil
  then show ?case by (cases ns) simp
next
  case (Cons x xs)
  obtain n s where ns: "ns = (n, s)" by (cases ns)
  obtain e json where x: "x = (e, json)" by (cases x)
  show ?case
    by (simp add: ns x Cons.IH split: option.splits prod.splits)
qed

lemma recorded_apply:
  "recorded send e m (calls, s) = (case send e m s of (r, s') \<Rightarrow> (r, (calls @ [(e, m)], s')))"
  by (simp add: recorded_def)

lemma replay_rows_recorded:
  "replay_rows parse (recorded send) rows (n, (calls, s)) =
     (case replay_rows parse send rows (n, s) of
        (n', s') \<Rightarrow> (n', (calls @ deliverable parse rows, s')))"
proof (induction rows arbitrary: n calls s)
  case Nil
  then show ?case by simp
next
  case (Cons x rows)
  obtain e json where x: "x = (e, json)" by (cases x)
  show ?case
    by (simp add: x Cons.IH recorded_apply split: option.splits prod.splits)
qed

lemma deliverable_append:
  "deliverable parse (xs @ ys) = deliverable parse xs @ deliverable parse ys"
  by (induction xs) (auto split: option.splits)

lemma deliverable_member:
  "(e, m) \<in> set (deliverable parse rows) \<longleftrightarrow> (\<exists>j. (e, j) \<in> set rows \<and> parse j = Some m)"
  by (induction rows) (auto split: option.splits)

lemma replay_rows_deliver_all:
  "snd (replay_rows parse send rows (n, s)) = deliver_all send (deliverable parse rows) s"
proof (induction rows arbitrary: n s)
  case Nil
  then show ?case by simp
next
  case (Cons x rows)
  obtain e json where x: "x = (e, json)" by (cases x)
  show ?case
    by (simp add: x Cons.IH split: option.splits prod.splits)
qed

subsection \<open>The query\<close>

lemma select_after_unknown:
  assumes "\<not> (\<exists>r \<in> set t. EventId r = lastEventId \<and> StreamId r = stream)"
  shows "select_after stream lastEventId t = Inr []"
proof -
  have "filter (\<lambda>le. EventId le = lastEventId \<and> StreamId le = stream) t = []"
    using assms by (auto simp: filter_empty_conv)
  then show ?thesis by (simp add: select_after_def)
qed

lemma select_after_subset:
  assumes "select_after stream lastEventId t = Inr rows"
  shows "set rows \<subseteq> (\<lambda>e. (EventId e, MessageJson e)) ` set t"
proof (cases "filter (\<lambda>le. EventId le = lastEventId \<and> StreamId le = stream) t")
  case Nil
  with assms show ?thesis by (simp add: select_after_def)
next
  case (Cons le les)
  show ?thesis
  proof (cases les)
    case Nil
    with Cons assms show ?thesis by (auto simp: select_after_def)
  next
    case (Cons le' les')
    with \<open>filter _ t = le # les\<close> assms show ?thesis by (simp add: select_after_def)
  qed
qed

text \<open>
  In a table with unique event ids, where the rows of a stream carry strictly increasing
  times in insertion order, the query after one of these rows returns the rows of the
  stream that were inserted after it, in insertion order.
\<close>

lemma select_after_split:
  assumes d: "distinct (map EventId t)"
    and f: "filter (\<lambda>r. StreamId r = stream) t = xs @ r # ys"
    and s: "sorted_wrt (<) (map StoredAt (xs @ r # ys))"
  shows "select_after stream (EventId r) t = Inr (map (\<lambda>e. (EventId e, MessageJson e)) ys)"
proof -
  have d': "distinct (map EventId (xs @ r # ys))"
    using distinct_map_filter [OF d, of "\<lambda>r. StreamId r = stream"] f by simp
  have "filter (\<lambda>le. EventId le = EventId r \<and> StreamId le = stream) t
          = filter (\<lambda>le. EventId le = EventId r) (filter (\<lambda>r. StreamId r = stream) t)"
    by (simp add: conj_commute)
  also have "\<dots> = filter (\<lambda>le. EventId le = EventId r) (xs @ r # ys)"
    by (simp only: f)
  also have "\<dots> = [r]"
  proof -
    have "EventId r \<notin> EventId ` set xs" "EventId r \<notin> EventId ` set ys"
      using d' by auto
    then have "\<forall>x \<in> set xs. EventId x \<noteq> EventId r" "\<forall>y \<in> set ys. EventId y \<noteq> EventId r"
      by (metis imageI)+
    then have "filter (\<lambda>le. EventId le = EventId r) xs = []"
      "filter (\<lambda>le. EventId le = EventId r) ys = []"
      by (simp_all add: filter_empty_conv)
    then show ?thesis by simp
  qed
  finally have sub: "filter (\<lambda>le. EventId le = EventId r \<and> StreamId le = stream) t = [r]" .
  have lo: "\<forall>x \<in> set xs. StoredAt x < StoredAt r" and hi: "\<forall>y \<in> set ys. StoredAt r < StoredAt y"
    using s by (auto simp: sorted_wrt_append)
  have "filter (\<lambda>e. StreamId e = stream \<and> StoredAt r < StoredAt e) t
          = filter (\<lambda>e. StoredAt r < StoredAt e) (filter (\<lambda>r. StreamId r = stream) t)"
    by simp
  also have "\<dots> = filter (\<lambda>e. StoredAt r < StoredAt e) (xs @ r # ys)"
    by (simp only: f)
  also have "\<dots> = ys"
  proof -
    have "filter (\<lambda>e. StoredAt r < StoredAt e) xs = []"
      using lo by (auto simp: filter_empty_conv)
    moreover have "filter (\<lambda>e. StoredAt r < StoredAt e) ys = ys"
      using hi by (simp add: filter_id_conv)
    ultimately show ?thesis by simp
  qed
  finally have sel: "filter (\<lambda>e. StreamId e = stream \<and> StoredAt r < StoredAt e) t = ys" .
  have "sorted_wrt (<) (map StoredAt ys)"
    using s by (simp add: sorted_wrt_append)
  then have "sorted (map StoredAt ys)"
    by (rule strict_sorted_imp_sorted)
  then have "sort_key StoredAt ys = ys"
    by (rule sort_key_id_if_sorted)
  then show ?thesis
    by (simp add: select_after_def sub sel)
qed

subsection \<open>A replay that reaches the query\<close>

lemma replayEventsAfter_rows:
  assumes "extractStreamId lastEventId \<noteq> []"
    and "getDbPool (rconnect env) (pool st) = (Inr (), p)"
    and "rfault env = None"
    and "select_after (extractStreamId lastEventId) lastEventId (table st) = Inr rows"
    and "replay_rows parse send rows (0, s) = (n, s')"
  shows "replayEventsAfter parse env lastEventId send st s =
           \<lparr>returned = Inr (extractStreamId lastEventId), replayedCount = Some n,
            pool_after = p, client_after = s'\<rparr>"
proof -
  have "lastEventId \<noteq> []" using assms(1) extractStreamId_Nil by auto
  then show ?thesis
    using assms by (simp add: replayEventsAfter_def Let_def)
qed

lemma replayEventsAfter_recorded:
  assumes "extractStreamId lastEventId \<noteq> []"
    and "getDbPool (rconnect env) (pool st) = (Inr (), p)"
    and "rfault env = None"
    and "select_after (extractStreamId lastEventId) lastEventId (table st) = Inr rows"
  shows "replayEventsAfter parse env lastEventId (recorded send) st (calls, s) =
           \<lparr>returned = Inr (extractStreamId lastEventId),
            replayedCount = Some (fst (replay_rows parse send rows (0, s))),
            pool_after = p,
            client_after = (calls @ deliverable parse rows,
                            deliver_all send (deliverable parse rows) s)\<rparr>"
proof -
  obtain n s' where r: "replay_rows parse send rows (0, s) = (n, s')"
    by (cases "replay_rows parse send rows (0, s)")
  then have r': "replay_rows parse (recorded send) rows (0, (calls, s)) = (n, (calls @ deliverable parse rows, s'))"
    by (simp add: replay_rows_recorded)
  have "s' = deliver_all send (deliverable parse rows) s"
    using replay_rows_deliver_all [of parse send rows 0 s] r by simp
  then show ?thesis
    using replayEventsAfter_rows [OF assms r'] r by simp
qed

subsection \<open>What appends leave in the table\<close>

lemma storeEvent_cases:
  assumes "storeEvent stringify env streamId message st = (r, st')"
  shows "(\<exists>err. r = Inl err \<and> table st' = table st) \<or>
         (\<exists>json. r = Inr (generateEventId streamId (now env) (uuid env)) \<and>
                 stringify message = Inr json \<and>
                 generateEventId streamId (now env) (uuid env) \<notin> set (map EventId (table st)) \<and>
                 table st' = table st @ [\<lparr>EventId = generateEventId streamId (now env) (uuid env),
                     StreamId = streamId, MessageJson = json, StoredAt = date env\<rparr>])"
proof (cases "stringify message")
  case (Inl err)
  with assms have "r = Inl err" "st' = st"
    by (simp_all add: storeEvent_def Let_def)
  then show ?thesis by simp
next
  case (Inr json)
  with assms show ?thesis
    by (auto simp: storeEvent_def insert_row_def getDbPool_def Let_def
             split: pool_state.splits option.splits if_splits)
qed

lemma run_appends_table:
  assumes "run_appends stringify steps st0 = (results, st)"
    and "distinct (map EventId (table st0))"
  shows "\<exists>new. table st = table st0 @ new \<and> distinct (map EventId (table st)) \<and>
           (\<forall>r \<in> set new. \<exists>n u. EventId r = generateEventId (StreamId r) n u) \<and>
           list_all2 (\<lambda>r (e, m). EventId r = e \<and> stringify m = Inr (MessageJson r))
             (filter (\<lambda>r. StreamId r = stream) new) (appended stream steps results)"
  using assms
proof (induction steps arbitrary: st0 results st)
  case Nil
  then show ?case by auto
next
  case (Cons c steps)
  show ?case
  proof (cases c)
    case PoolError
    have t: "table (on_pool_error st0) = table st0"
      by (simp add: on_pool_error_def)
    from Cons.prems PoolError
    have run: "run_appends stringify steps (on_pool_error st0) = (results, st)"
      by simp
    have "distinct (map EventId (table (on_pool_error st0)))"
      using Cons.prems(2) t by simp
    from Cons.IH [OF run this] show ?thesis
      using PoolError t by simp
  next
    case (Append env streamId message)
    obtain r st1 where step: "storeEvent stringify env streamId message st0 = (r, st1)"
      by (cases "storeEvent stringify env streamId message st0")
    obtain rs st2 where rest: "run_appends stringify steps st1 = (rs, st2)"
      by (cases "run_appends stringify steps st1")
    from Cons.prems(1) Append step rest have res: "results = r # rs" and st: "st = st2"
      by auto
    from storeEvent_cases [OF step] show ?thesis
    proof (elim disjE exE conjE)
      fix err
      assume r: "r = Inl err" and t: "table st1 = table st0"
      have "distinct (map EventId (table st1))"
        using Cons.prems(2) t by simp
      from Cons.IH [OF rest this] obtain new where
        "table st2 = table st1 @ new" "distinct (map EventId (table st2))"
        "\<forall>r \<in> set new. \<exists>n u. EventId r = generateEventId (StreamId r) n u"
        "list_all2 (\<lambda>r (e, m). EventId r = e \<and> stringify m = Inr (MessageJson r))
               (filter (\<lambda>r. StreamId r = stream) new) (appended stream steps rs)"
        by blast
      then show ?thesis
        using r t res st Append by (intro exI [of _ new]) simp
    next
      fix json
      let ?e = "generateEventId streamId (now env) (uuid env)"
      let ?row = "\<lparr>EventId = ?e, StreamId = streamId, MessageJson = json, StoredAt = date env\<rparr>"
      assume r: "r = Inr ?e" and j: "stringify message = Inr json"
        and fresh: "?e \<notin> set (map EventId (table st0))"
        and t: "table st1 = table st0 @ [?row]"
      have "distinct (map EventId (table st1))"
        using Cons.prems(2) t fresh by simp
      from Cons.IH [OF rest this] obtain new where new:
        "table st2 = table st1 @ new" "distinct (map EventId (table st2))"
        "\<forall>r \<in> set new. \<exists>n u. EventId r = generateEventId (StreamId r) n u"
        "list_all2 (\<lambda>r (e, m). EventId r = e \<and> stringify m = Inr (MessageJson r))
               (filter (\<lambda>r. StreamId r = stream) new) (appended stream steps rs)"
        by blast
      have "\<exists>n u. EventId ?row = generateEventId (StreamId ?row) n u"
        by auto
      then show ?thesis
        using r t res st Append j new by (intro exI [of _ "?row # new"]) auto
    qed
  qed
qed

lemma deliverable_rows_of:
  assumes "list_all2 (\<lambda>r (e, m). EventId r = e \<and> stringify m = Inr (MessageJson r)) rs evs"
    and "\<forall>(e, m) \<in> set evs. \<forall>json. stringify m = Inr json \<longrightarrow> parse json = Some m"
  shows "deliverable parse (map (\<lambda>e. (EventId e, MessageJson e)) rs) = evs"
  using assms
  by (induction rs evs rule: list_all2_induct) auto

subsection \<open>The examples, evaluated\<close>

lemma decimal_examples:
  "decimal 1000 = ''1000''" "decimal 2000 = ''2000''" "decimal 3000 = ''3000''"
  "decimal 4000 = ''4000''"
  by (simp_all add: decimal.simps)

lemma scenario_run:
  "run_appends stringify_text scenario \<lparr>pool = NoPool, table = []\<rparr> =
     ([Inr ''s1_1000_0a1b2c3d'', Inr ''s1_2000_1b2c3d4e'',
       Inr ''s2_3000_2c3d4e5f'', Inr ''s1_4000_3d4e5f6a''],
      \<lparr>pool = Connected, table = scenario_table\<rparr>)"
  by (simp add: scenario_def scenario_table_def env_at_def storeEvent_def stringify_text_def
        getDbPool_def on_pool_error_def insert_row_def generateEventId_def decimal_examples Let_def)

lemma burst_run:
  "run_appends stringify_text burst \<lparr>pool = NoPool, table = []\<rparr> =
     ([Inr ''s1_1000_0a1b2c3d'', Inr ''s1_1000_1b2c3d4e''],
      \<lparr>pool = Connected, table = burst_table\<rparr>)"
  by (simp add: burst_def burst_table_def env_at_def storeEvent_def stringify_text_def
        getDbPool_def on_pool_error_def insert_row_def generateEventId_def decimal_examples Let_def)

lemma parse_text_quoted: "parse_text (quoted m) = Some m"
  by (simp add: parse_text_def quoted_def)

lemma pool_ok: "getDbPool (rconnect env_ok) (pool \<lparr>pool = Connected, table = t\<rparr>) = (Inr (), Connected)"
  by (simp add: getDbPool_def env_ok_def)

lemma fault_ok: "rfault env_ok = None"
  by (simp add: env_ok_def)

subsection \<open>The example codec for responses\<close>

text \<open>
  JSON.parse gives back every such response from what JSON.stringify wrote for it,
  except that the value \<open>NaN\<close> comes back as \<open>null\<close>.
\<close>

lemma strip_prefix_append: "strip_prefix p (p @ s) = Some s"
  by (induction p) auto

lemma digit_char: "k < 10 \<Longrightarrow> digit_of (''0123456789'' ! k) = Some k"
proof -
  assume "k < 10"
  then have "k \<in> {0, 1, 2, 3, 4, 5, 6, 7, 8, 9}"
    by auto
  then show ?thesis
    by (auto simp: digit_of_def)
qed

lemma read_digits_append:
  "read_digits a (xs @ ys) = (case read_digits a xs of None \<Rightarrow> None | Some b \<Rightarrow> read_digits b ys)"
  by (induction xs arbitrary: a) (auto split: option.splits)

lemma read_digits_decimal: "read_digits a (decimal n) = Some (a * 10 ^ length (decimal n) + n)"
proof (induction n arbitrary: a rule: decimal.induct)
  case (1 n)
  show ?case
  proof (cases "n < 10")
    case True
    then show ?thesis
      by (subst (1 2) decimal.simps) (simp add: digit_char)
  next
    case False
    have m: "n mod 10 < 10" by simp
    have "read_digits a (decimal n)
            = read_digits a (decimal (n div 10) @ [''0123456789'' ! (n mod 10)])"
      using False by (subst decimal.simps) simp
    also have "\<dots> = Some (10 * (a * 10 ^ length (decimal (n div 10)) + n div 10) + n mod 10)"
      using 1 [OF False] by (simp add: read_digits_append digit_char [OF m])
    also have "length (decimal n) = Suc (length (decimal (n div 10)))"
      using False by (subst decimal.simps) simp
    ultimately show ?thesis by (simp add: algebra_simps)
  qed
qed

lemma decimal_all_digits: "\<forall>c \<in> set (decimal n). digit_of c \<noteq> None"
proof (induction n rule: decimal.induct)
  case (1 n)
  show ?case
  proof (cases "n < 10")
    case True
    then show ?thesis by (subst decimal.simps) (simp add: digit_char)
  next
    case False
    have m: "n mod 10 < 10" by simp
    from 1 [OF False] digit_char [OF m] False show ?thesis
      by (subst decimal.simps) simp
  qed
qed

lemma decimal_not_Nil: "decimal n \<noteq> []"
  by (subst decimal.simps) simp

lemma decimal_small:
  "decimal 1 = ''1''" "decimal 2 = ''2''" "decimal 3 = ''3''" "decimal 4 = ''4''"
  "decimal 5 = ''5''" "decimal 6 = ''6''" "decimal 7 = ''7''" "decimal 8 = ''8''"
  "decimal 9 = ''9''" "decimal (Suc 0) = ''1''"
  by (simp_all add: decimal.simps)

lemma decimal_no_leading_zero: "0 < n \<Longrightarrow> hd (decimal n) \<noteq> CHR ''0''"
proof (induction n rule: decimal.induct)
  case (1 n)
  show ?case
  proof (cases "n < 10")
    case True
    with 1(2) have "n \<in> {1, 2, 3, 4, 5, 6, 7, 8, 9}"
      by auto
    then show ?thesis
      by (auto simp: decimal_small)
  next
    case False
    then have "0 < n div 10" by simp
    from 1(1) [OF False this] False decimal_not_Nil [of "n div 10"] show ?thesis
      by (subst decimal.simps) simp
  qed
qed

lemma read_decimal_decimal: "read_decimal (decimal n) = Some n"
proof (cases "n = 0")
  case True
  then show ?thesis by (simp add: read_decimal_def decimal.simps digit_of_def)
next
  case False
  then have "hd (decimal n) \<noteq> CHR ''0''" by (simp add: decimal_no_leading_zero)
  then show ?thesis
    using decimal_not_Nil [of n] read_digits_decimal [of 0 n]
    by (cases "decimal n") (auto simp: read_decimal_def)
qed

lemma takeWhile_decimal:
  assumes "digit_of c = None"
  shows "takeWhile (\<lambda>c. digit_of c \<noteq> None) (decimal n @ c # cs) = decimal n"
    and "dropWhile (\<lambda>c. digit_of c \<noteq> None) (decimal n @ c # cs) = c # cs"
  using assms decimal_all_digits [of n]
  by (simp_all add: takeWhile_append2 dropWhile_append2 del: not_None_eq)

lemma parse_reply_text:
  "parse_reply (reply_head @ decimal i @ reply_middle @
       (case v of JsNumber n \<Rightarrow> decimal n | JsNaN \<Rightarrow> ''null'' | JsNull \<Rightarrow> ''null'') @ ''}}'')
     = Some (Reply i (case v of JsNumber n \<Rightarrow> JsNumber n | JsNaN \<Rightarrow> JsNull | JsNull \<Rightarrow> JsNull))"
proof -
  obtain cs where mid: "reply_middle = CHR '','' # cs"
    by (simp add: reply_middle_def)
  have comma: "digit_of (CHR '','') = None" and brace: "digit_of (CHR ''}'') = None"
    by (simp_all add: digit_of_def)
  have first: "takeWhile (\<lambda>c. digit_of c \<noteq> None) (decimal i @ reply_middle @ rest) = decimal i"
    "dropWhile (\<lambda>c. digit_of c \<noteq> None) (decimal i @ reply_middle @ rest) = reply_middle @ rest"
    for rest
    using takeWhile_decimal [OF comma, of i "cs @ rest"] by (simp_all add: mid del: not_None_eq)
  show ?thesis
  proof (cases v)
    case (JsNumber n)
    have ne: "decimal n @ ''}}'' \<noteq> ''null}}''"
    proof
      assume "decimal n @ ''}}'' = ''null}}''"
      then have "hd (decimal n) = CHR ''n''"
        using decimal_not_Nil [of n] by (cases "decimal n") auto
      moreover have "digit_of (hd (decimal n)) \<noteq> None"
        using decimal_all_digits [of n] decimal_not_Nil [of n] by (cases "decimal n") auto
      ultimately show False by (simp add: digit_of_def)
    qed
    show ?thesis
      using ne takeWhile_decimal [OF brace, of n "''}''"]
      by (simp add: JsNumber parse_reply_def strip_prefix_append first read_decimal_decimal
            del: not_None_eq)
  next
    case JsNaN
    then show ?thesis
      by (simp add: parse_reply_def strip_prefix_append first read_decimal_decimal
            del: not_None_eq)
  next
    case JsNull
    then show ?thesis
      by (simp add: parse_reply_def strip_prefix_append first read_decimal_decimal
            del: not_None_eq)
  qed
qed

lemma reply_decimals:
  "decimal 1 = ''1''" "decimal 2 = ''2''" "decimal 3 = ''3''" "decimal 7 = ''7''"
  "decimal 42 = ''42''"
  by (simp_all add: decimal.simps)

lemma reply_rows:
  "select_after (extractStreamId ''s1_1000_0a1b2c3d'') ''s1_1000_0a1b2c3d'' reply_table
     = Inr [(''s1_2000_1b2c3d4e'', reply_head @ ''2'' @ reply_middle @ ''null}}''),
            (''s1_3000_2c3d4e5f'', reply_head @ ''3'' @ reply_middle @ ''7}}'')]"
  by (simp add: extractStreamId_def select_after_def reply_table_def)

section \<open>The claims about the event store\<close>

text \<open>
  C1. The claim: for every stream and every sequence of appends, possibly interleaved
  with appends to other streams, a replay after the event id returned for the k-th
  message of the stream delivers exactly the later messages of the stream, in order, one
  awaited delivery at a time, and nothing from another stream.

  The store orders a stream by the clock reading \<open>StoredAt\<close> alone and replays the rows
  whose reading is strictly greater than that of the given event. So the claim holds
  when the readings of the stream's rows strictly increase in append order, and fails
  for two appends in the same millisecond. The theorem: the run, of appends to any
  streams and of pool errors, starts from any table with unique event ids; the stream
  id is not empty and has no underscore; the
  readings of the stream's rows strictly increase; JSON.parse gives back each later
  message from what JSON.stringify wrote; the database serves the replay. Then
  the replay returns the stream id, the calls of \<open>send\<close> are exactly the later events of
  the stream as the callers of \<open>storeEvent\<close> know them, in order, and each call acts
  on the client state that the call before it left.
\<close>

theorem replay_after_appends:
  assumes run: "run_appends stringify steps st0 = (results, st)"
    and key: "distinct (map EventId (table st0))"
    and nonempty: "stream \<noteq> []"
    and delimiter: "CHR ''_'' \<notin> set stream"
    and clock: "sorted_wrt (<) (map StoredAt (filter (\<lambda>r. StreamId r = stream) (table st)))"
    and events: "appended stream steps results = before @ (eventId, m) # after"
    and codec: "\<forall>(e, m) \<in> set after. \<forall>json. stringify m = Inr json \<longrightarrow> parse json = Some m"
    and storage: "getDbPool (rconnect env) (pool st) = (Inr (), p)" "rfault env = None"
  shows "returned (replayEventsAfter parse env eventId (recorded send) st (history, s)) = Inr stream
       \<and> client_after (replayEventsAfter parse env eventId (recorded send) st (history, s))
           = (history @ after, deliver_all send after s)"
proof -
  let ?P = "\<lambda>r (e, m). EventId r = e \<and> stringify m = Inr (MessageJson r)"
  let ?f = "filter (\<lambda>r. StreamId r = stream)"
  from run_appends_table [OF run key, of stream] obtain new where
    t: "table st = table st0 @ new" and d: "distinct (map EventId (table st))"
    and g: "\<forall>r \<in> set new. \<exists>n u. EventId r = generateEventId (StreamId r) n u"
    and l: "list_all2 ?P (?f new) (appended stream steps results)"
    by blast
  from l events obtain us vs where uv: "?f new = us @ vs" and "list_all2 ?P vs ((eventId, m) # after)"
    by (auto simp: list_all2_append2)
  then obtain r ra where vs: "vs = r # ra" and r: "EventId r = eventId" and ra: "list_all2 ?P ra after"
    by (auto simp: list_all2_Cons2)
  have "r \<in> set (?f new)" using uv vs by simp
  then have rnew: "r \<in> set new" and rs: "StreamId r = stream" by auto
  from g rnew rs obtain n u where "EventId r = generateEventId stream n u" by auto
  then have ex: "extractStreamId eventId = stream"
    using r delimiter extractStreamId_generateEventId by auto
  have split: "?f (table st) = (?f (table st0) @ us) @ r # ra"
    using t uv vs by simp
  have sorted: "sorted_wrt (<) (map StoredAt ((?f (table st0) @ us) @ r # ra))"
    using clock split by simp
  have sel: "select_after stream eventId (table st) = Inr (map (\<lambda>e. (EventId e, MessageJson e)) ra)"
    using select_after_split [OF d split sorted] r by simp
  have del: "deliverable parse (map (\<lambda>e. (EventId e, MessageJson e)) ra) = after"
    using deliverable_rows_of [OF ra codec] .
  have ne: "extractStreamId eventId \<noteq> []" using ex nonempty by simp
  have sel': "select_after (extractStreamId eventId) eventId (table st) = Inr (map (\<lambda>e. (EventId e, MessageJson e)) ra)"
    using sel ex by simp
  show ?thesis
    using replayEventsAfter_recorded [OF ne storage sel', of parse send history s] del ex by simp
qed

text \<open>
  The scenario of the specification: after the appends of \<open>A\<close>, \<open>B\<close> to \<open>s1\<close>, \<open>X\<close> to
  \<open>s2\<close> and \<open>C\<close> to \<open>s1\<close>, a replay after the event of \<open>A\<close> delivers \<open>B\<close> and \<open>C\<close>.
\<close>

theorem replay_after_appends_witness:
  "run_appends stringify_text scenario \<lparr>pool = NoPool, table = []\<rparr> =
     ([Inr ''s1_1000_0a1b2c3d'', Inr ''s1_2000_1b2c3d4e'',
       Inr ''s2_3000_2c3d4e5f'', Inr ''s1_4000_3d4e5f6a''],
      \<lparr>pool = Connected, table = scenario_table\<rparr>)
   \<and> returned (replayEventsAfter parse_text env_ok ''s1_1000_0a1b2c3d'' (recorded send_ok)
         \<lparr>pool = Connected, table = scenario_table\<rparr> ([], ())) = Inr ''s1''
   \<and> client_after (replayEventsAfter parse_text env_ok ''s1_1000_0a1b2c3d'' (recorded send_ok)
         \<lparr>pool = Connected, table = scenario_table\<rparr> ([], ()))
       = ([(''s1_2000_1b2c3d4e'', ''B''), (''s1_4000_3d4e5f6a'', ''C'')], ())"
proof -
  let ?results = "[Inr ''s1_1000_0a1b2c3d'', Inr ''s1_2000_1b2c3d4e'',
       Inr ''s2_3000_2c3d4e5f'', Inr ''s1_4000_3d4e5f6a'']"
  let ?after = "[(''s1_2000_1b2c3d4e'', ''B''), (''s1_4000_3d4e5f6a'', ''C'')]"
  let ?st = "\<lparr>pool = Connected, table = scenario_table\<rparr>"
  have key: "distinct (map EventId (table \<lparr>pool = NoPool, table = []\<rparr>))" by simp
  have nonempty: "''s1'' \<noteq> []" by simp
  have delimiter: "CHR ''_'' \<notin> set ''s1''" by simp
  have clock: "sorted_wrt (<) (map StoredAt (filter (\<lambda>r. StreamId r = ''s1'') (table ?st)))"
    by (simp add: scenario_table_def)
  have events: "appended ''s1'' scenario ?results = [] @ (''s1_1000_0a1b2c3d'', ''A'') # ?after"
    by (simp add: scenario_def)
  have codec: "\<forall>(e, m) \<in> set ?after. \<forall>json. stringify_text m = Inr json \<longrightarrow> parse_text json = Some m"
    by (simp add: stringify_text_def parse_text_quoted)
  from replay_after_appends [OF scenario_run key nonempty delimiter clock events codec pool_ok [of scenario_table] fault_ok,
        of send_ok "[]" "()"] scenario_run
  show ?thesis by simp
qed

text \<open>
  Two appends to \<open>s1\<close> within one millisecond both succeed, and a replay after the
  first event delivers nothing, although the second event was appended after it.
\<close>

theorem replay_after_appends_counterexample:
  "run_appends stringify_text burst \<lparr>pool = NoPool, table = []\<rparr> =
     ([Inr ''s1_1000_0a1b2c3d'', Inr ''s1_1000_1b2c3d4e''],
      \<lparr>pool = Connected, table = burst_table\<rparr>)
   \<and> appended ''s1'' burst [Inr ''s1_1000_0a1b2c3d'', Inr ''s1_1000_1b2c3d4e'']
       = [(''s1_1000_0a1b2c3d'', ''A''), (''s1_1000_1b2c3d4e'', ''B'')]
   \<and> replayEventsAfter parse_text env_ok ''s1_1000_0a1b2c3d'' (recorded send_ok)
         \<lparr>pool = Connected, table = burst_table\<rparr> ([], ())
       = \<lparr>returned = Inr ''s1'', replayedCount = Some 0, pool_after = Connected,
          client_after = ([], ())\<rparr>"
proof -
  have "appended ''s1'' burst [Inr ''s1_1000_0a1b2c3d'', Inr ''s1_1000_1b2c3d4e'']
       = [(''s1_1000_0a1b2c3d'', ''A''), (''s1_1000_1b2c3d4e'', ''B'')]"
    by (simp add: burst_def)
  moreover have "replayEventsAfter parse_text env_ok ''s1_1000_0a1b2c3d'' (recorded send_ok)
         \<lparr>pool = Connected, table = burst_table\<rparr> ([], ())
       = \<lparr>returned = Inr ''s1'', replayedCount = Some 0, pool_after = Connected,
          client_after = ([], ())\<rparr>"
    by (simp add: replayEventsAfter_def extractStreamId_def env_ok_def getDbPool_def
          select_after_def burst_table_def Let_def)
  ultimately show ?thesis using burst_run by simp
qed

text \<open>
  C2. The claim: for every stream id that the store accepts, reading the stream id out
  of an event id that \<open>storeEvent\<close> generated for it gives the stream id back.

  \<open>storeEvent\<close> accepts every string, and the stream id is read as the part of the event
  id before the first underscore. For a stream id with an underscore that is a proper
  prefix: \<open>a\<close> for \<open>a_b\<close>, and the empty string for \<open>_GET_stream\<close>, for which a replay
  returns at once without looking at the table.
\<close>

theorem stream_id_with_delimiter_lost:
  "extractStreamId (generateEventId ''_GET_stream'' n u) = []
   \<and> extractStreamId (generateEventId ''a_b'' n u) = ''a''
   \<and> replayEventsAfter parse env (generateEventId ''_GET_stream'' n u) (recorded send) st (history, s)
       = \<lparr>returned = Inr [], replayedCount = None, pool_after = pool st,
          client_after = (history, s)\<rparr>"
  by (simp add: extractStreamId_takeWhile generateEventId_def replayEventsAfter_def)




text \<open>
  C4. The claim: for every well-formed last event id that no stored event of the
  stream read out of it has, the replay makes no delivery and does not throw.

  With the database serving the query, the replay returns the stream id read out of the
  event id, logs a count of zero and leaves the client as it was.
\<close>

theorem replay_unknown_id_empty:
  assumes wellformed: "extractStreamId lastEventId \<noteq> []"
    and unknown: "\<forall>r \<in> set (table st). \<not> (EventId r = lastEventId \<and> StreamId r = extractStreamId lastEventId)"
    and storage: "getDbPool (rconnect env) (pool st) = (Inr (), p)" "rfault env = None"
  shows "replayEventsAfter parse env lastEventId (recorded send) st (history, s) =
           \<lparr>returned = Inr (extractStreamId lastEventId), replayedCount = Some 0,
            pool_after = p, client_after = (history, s)\<rparr>"
proof -
  have "select_after (extractStreamId lastEventId) lastEventId (table st) = Inr []"
    using unknown by (intro select_after_unknown) blast
  from replayEventsAfter_recorded [OF wellformed storage this, of parse send history s]
  show ?thesis by simp
qed

theorem replay_unknown_id_empty_witness:
  "extractStreamId ''s1_999_ffffffff'' \<noteq> [] \<and>
   ''s1_999_ffffffff'' \<notin> set (map EventId scenario_table) \<and>
   replayEventsAfter parse_text env_ok ''s1_999_ffffffff'' (recorded send_ok)
       \<lparr>pool = Connected, table = scenario_table\<rparr> ([], ()) =
     \<lparr>returned = Inr ''s1'', replayedCount = Some 0, pool_after = Connected, client_after = ([], ())\<rparr>"
proof -
  have e: "extractStreamId ''s1_999_ffffffff'' = ''s1''"
    by (simp add: extractStreamId_def)
  have w: "extractStreamId ''s1_999_ffffffff'' \<noteq> []"
    by (simp add: e)
  have u: "\<forall>r \<in> set (table \<lparr>pool = Connected, table = scenario_table\<rparr>).
             \<not> (EventId r = ''s1_999_ffffffff'' \<and> StreamId r = extractStreamId ''s1_999_ffffffff'')"
    by (simp add: scenario_table_def)
  have p: "getDbPool (rconnect env_ok) (pool \<lparr>pool = Connected, table = scenario_table\<rparr>) = (Inr (), Connected)"
    by (simp add: getDbPool_def)
  have f: "rfault env_ok = None"
    by (simp add: env_ok_def)
  have n: "''s1_999_ffffffff'' \<notin> set (map EventId scenario_table)"
    by (simp add: scenario_table_def)
  from replay_unknown_id_empty [OF w u p f, of parse_text send_ok "[]" "()"] w n e
  show ?thesis by simp
qed

text \<open>
  C5. The claim: when one stored payload fails to deserialize during a replay, exactly
  that event is skipped, the events after it are delivered in order, and the replay
  does not throw.

  Whatever record set the query returns, with a row whose payload JSON.parse rejects:
  the replay returns the stream id, and the calls of \<open>send\<close> are those for the rows before
  it followed by those for the rows after it, each on the state the one before left.
\<close>

theorem replay_skips_corrupt_payload:
  assumes wellformed: "extractStreamId lastEventId \<noteq> []"
    and storage: "getDbPool (rconnect env) (pool st) = (Inr (), p)" "rfault env = None"
    and rows: "select_after (extractStreamId lastEventId) lastEventId (table st)
                 = Inr (pre @ (eventId, json) # post)"
    and corrupt: "parse json = None"
  shows "returned (replayEventsAfter parse env lastEventId (recorded send) st (history, s))
           = Inr (extractStreamId lastEventId)
       \<and> client_after (replayEventsAfter parse env lastEventId (recorded send) st (history, s))
           = (history @ deliverable parse pre @ deliverable parse post,
              deliver_all send (deliverable parse pre @ deliverable parse post) s)"
proof -
  have "deliverable parse (pre @ (eventId, json) # post) = deliverable parse pre @ deliverable parse post"
    using corrupt by (simp add: deliverable_append)
  with replayEventsAfter_recorded [OF wellformed storage rows, of parse send history s]
  show ?thesis by simp
qed

theorem replay_skips_corrupt_payload_witness:
  "parse_text ''{oops'' = None
   \<and> select_after ''s1'' ''s1_1000_0a1b2c3d'' corrupt_table
       = Inr [(''s1_2000_1b2c3d4e'', ''{oops''), (''s1_4000_3d4e5f6a'', quoted ''C'')]
   \<and> returned (replayEventsAfter parse_text env_ok ''s1_1000_0a1b2c3d'' (recorded send_ok)
         \<lparr>pool = Connected, table = corrupt_table\<rparr> ([], ())) = Inr ''s1''
   \<and> client_after (replayEventsAfter parse_text env_ok ''s1_1000_0a1b2c3d'' (recorded send_ok)
         \<lparr>pool = Connected, table = corrupt_table\<rparr> ([], ()))
       = ([(''s1_4000_3d4e5f6a'', ''C'')], ())"
proof -
  let ?st = "\<lparr>pool = Connected, table = corrupt_table\<rparr>"
  have e: "extractStreamId ''s1_1000_0a1b2c3d'' = ''s1''"
    by (simp add: extractStreamId_def)
  have w: "extractStreamId ''s1_1000_0a1b2c3d'' \<noteq> []"
    by (simp add: e)
  have sel: "select_after ''s1'' ''s1_1000_0a1b2c3d'' corrupt_table
       = Inr [(''s1_2000_1b2c3d4e'', ''{oops''), (''s1_4000_3d4e5f6a'', quoted ''C'')]"
    by (simp add: select_after_def corrupt_table_def)
  have rows: "select_after (extractStreamId ''s1_1000_0a1b2c3d'') ''s1_1000_0a1b2c3d'' (table ?st)
       = Inr ([] @ (''s1_2000_1b2c3d4e'', ''{oops'') # [(''s1_4000_3d4e5f6a'', quoted ''C'')])"
    by (simp add: e sel)
  have corrupt: "parse_text ''{oops'' = None"
    by (simp add: parse_text_def)
  from replay_skips_corrupt_payload [where parse = parse_text, OF w pool_ok [of corrupt_table] fault_ok rows corrupt, of send_ok "[]" "()"]
    sel corrupt e
  show ?thesis by (simp add: parse_text_quoted)
qed

text \<open>
  C6. The claim: for every payload, an append followed by a replay that reaches the
  event delivers a payload equal to the one appended.

  The store puts nothing between JSON.stringify and JSON.parse: the text inserted is
  the text selected. The theorem, for every JSON.stringify and JSON.parse: in any later
  table that still has the rows and unique event ids, a replay whose record set
  contains the event calls \<open>send\<close> for it with exactly what JSON.parse makes of the text
  that JSON.stringify wrote for the payload. That is the payload itself exactly when
  JSON.parse gives the payload back from that text.
\<close>

theorem append_replay_delivers_parsed_text:
  assumes append: "storeEvent stringify aenv streamId P st = (Inr eventId, st1)"
    and kept: "set (table st1) \<subseteq> set (table st2)"
    and key: "distinct (map EventId (table st2))"
    and wellformed: "extractStreamId lastEventId \<noteq> []"
    and storage: "getDbPool (rconnect env) (pool st2) = (Inr (), p)" "rfault env = None"
    and rows: "select_after (extractStreamId lastEventId) lastEventId (table st2) = Inr rows"
    and reached: "eventId \<in> fst ` set rows"
  shows "\<exists>json. stringify P = Inr json
           \<and> (\<forall>m. (eventId, m) \<in> set (fst (client_after
                   (replayEventsAfter parse env lastEventId (recorded send) st2 ([], s))))
                 \<longleftrightarrow> parse json = Some m)"
proof -
  from storeEvent_cases [OF append] obtain json where
    j: "stringify P = Inr json" and
    t1: "table st1 = table st @ [\<lparr>EventId = eventId, StreamId = streamId,
                                  MessageJson = json, StoredAt = date aenv\<rparr>]"
    by auto
  let ?row = "\<lparr>EventId = eventId, StreamId = streamId, MessageJson = json, StoredAt = date aenv\<rparr>"
  have row: "?row \<in> set (table st2)" using t1 kept by auto
  have inj: "inj_on EventId (set (table st2))" using key by (simp add: distinct_map)
  have only: "j' = json" if "(eventId, j') \<in> set rows" for j'
  proof -
    from that select_after_subset [OF rows] obtain r where
      r: "r \<in> set (table st2)" "EventId r = eventId" "MessageJson r = j'" by auto
    have "EventId r = EventId ?row" using r by simp
    from inj_onD [OF inj this r(1) row] have "r = ?row" .
    then have "MessageJson r = json" by simp
    with r show ?thesis by simp
  qed
  from reached obtain j' where "(eventId, j') \<in> set rows" by auto
  with only have here: "(eventId, json) \<in> set rows" by auto
  have calls: "fst (client_after (replayEventsAfter parse env lastEventId (recorded send) st2 ([], s)))
                 = deliverable parse rows"
    using replayEventsAfter_recorded [OF wellformed storage rows, of parse send "[]" s] by simp
  have "(eventId, m) \<in> set (deliverable parse rows) \<longleftrightarrow> parse json = Some m" for m
  proof
    assume "(eventId, m) \<in> set (deliverable parse rows)"
    then obtain j' where j': "(eventId, j') \<in> set rows" "parse j' = Some m"
      unfolding deliverable_member by blast
    from only [OF j'(1)] j'(2) show "parse json = Some m" by simp
  next
    assume "parse json = Some m"
    with here show "(eventId, m) \<in> set (deliverable parse rows)"
      unfolding deliverable_member by blast
  qed
  with j show ?thesis
    unfolding calls by blast
qed

theorem append_replay_delivers_parsed_text_witness:
  "storeEvent stringify_reply (env_at 3000 ''2c3d4e5f-0000-4000-8000-000000000003'') ''s1''
       (Reply 3 (JsNumber 7)) \<lparr>pool = Connected, table = take 2 reply_table\<rparr>
     = (Inr ''s1_3000_2c3d4e5f'', \<lparr>pool = Connected, table = reply_table\<rparr>)
   \<and> (''s1_3000_2c3d4e5f'', Reply 3 (JsNumber 7)) \<in> set (fst (client_after
         (replayEventsAfter parse_reply env_ok ''s1_1000_0a1b2c3d'' (recorded send_quiet)
            \<lparr>pool = Connected, table = reply_table\<rparr> ([], ()))))
   \<and> (''s1_3000_2c3d4e5f'', Reply 3 JsNull) \<notin> set (fst (client_after
         (replayEventsAfter parse_reply env_ok ''s1_1000_0a1b2c3d'' (recorded send_quiet)
            \<lparr>pool = Connected, table = reply_table\<rparr> ([], ()))))"
proof -
  let ?st2 = "\<lparr>pool = Connected, table = reply_table\<rparr>"
  have written: "stringify_reply (Reply 3 (JsNumber 7)) = Inr (reply_head @ ''3'' @ reply_middle @ ''7}}'')"
    by (simp add: stringify_reply_def reply_decimals)
  have append: "storeEvent stringify_reply (env_at 3000 ''2c3d4e5f-0000-4000-8000-000000000003'') ''s1''
       (Reply 3 (JsNumber 7)) \<lparr>pool = Connected, table = take 2 reply_table\<rparr>
     = (Inr ''s1_3000_2c3d4e5f'', ?st2)"
    by (simp add: written reply_table_def env_at_def storeEvent_def
        getDbPool_def insert_row_def generateEventId_def decimal_examples Let_def)
  have kept: "set (table ?st2) \<subseteq> set (table ?st2)"
    by simp
  have key: "distinct (map EventId (table ?st2))"
    by (simp add: reply_table_def)
  have w: "extractStreamId ''s1_1000_0a1b2c3d'' \<noteq> []"
    by (simp add: extractStreamId_def)
  have rows: "select_after (extractStreamId ''s1_1000_0a1b2c3d'') ''s1_1000_0a1b2c3d'' (table ?st2)
     = Inr [(''s1_2000_1b2c3d4e'', reply_head @ ''2'' @ reply_middle @ ''null}}''),
            (''s1_3000_2c3d4e5f'', reply_head @ ''3'' @ reply_middle @ ''7}}'')]"
    using reply_rows by simp
  have reached: "''s1_3000_2c3d4e5f'' \<in> fst ` set
      [(''s1_2000_1b2c3d4e'', reply_head @ ''2'' @ reply_middle @ ''null}}''),
       (''s1_3000_2c3d4e5f'', reply_head @ ''3'' @ reply_middle @ ''7}}'')]"
    by simp
  have parsed: "parse_reply (reply_head @ ''3'' @ reply_middle @ ''7}}'') = Some (Reply 3 (JsNumber 7))"
    using parse_reply_text [of 3 "JsNumber 7"] by (simp add: reply_decimals)
  from append_replay_delivers_parsed_text [where stringify = stringify_reply and parse = parse_reply,
      OF append kept key w pool_ok [of reply_table] fault_ok rows reached, of send_quiet "()"]
    append written parsed
  show ?thesis by auto
qed

text \<open>
  A response whose value is \<open>NaN\<close> is stored as the text with \<open>null\<close>, and the replay
  delivers the response with the value \<open>null\<close>.
\<close>

theorem append_replay_payload_counterexample:
  "storeEvent stringify_reply (env_at 2000 ''1b2c3d4e-0000-4000-8000-000000000002'') ''s1''
       (Reply 2 JsNaN) \<lparr>pool = Connected, table = take 1 reply_table\<rparr>
     = (Inr ''s1_2000_1b2c3d4e'', \<lparr>pool = Connected, table = take 2 reply_table\<rparr>)
   \<and> client_after (replayEventsAfter parse_reply env_ok ''s1_1000_0a1b2c3d'' (recorded send_quiet)
         \<lparr>pool = Connected, table = take 2 reply_table\<rparr> ([], ()))
       = ([(''s1_2000_1b2c3d4e'', Reply 2 JsNull)], ())
   \<and> Reply 2 JsNull \<noteq> Reply 2 JsNaN"
proof -
  have written: "stringify_reply (Reply 2 JsNaN) = Inr (reply_head @ ''2'' @ reply_middle @ ''null}}'')"
    by (simp add: stringify_reply_def reply_decimals)
  have append: "storeEvent stringify_reply (env_at 2000 ''1b2c3d4e-0000-4000-8000-000000000002'') ''s1''
       (Reply 2 JsNaN) \<lparr>pool = Connected, table = take 1 reply_table\<rparr>
     = (Inr ''s1_2000_1b2c3d4e'', \<lparr>pool = Connected, table = take 2 reply_table\<rparr>)"
    by (simp add: written reply_table_def env_at_def storeEvent_def
        getDbPool_def insert_row_def generateEventId_def decimal_examples Let_def)
  have sel: "select_after ''s1'' ''s1_1000_0a1b2c3d'' (take 2 reply_table)
     = Inr [(''s1_2000_1b2c3d4e'', reply_head @ ''2'' @ reply_middle @ ''null}}'')]"
    by (simp add: select_after_def reply_table_def)
  have parsed: "parse_reply (reply_head @ ''2'' @ reply_middle @ ''null}}'') = Some (Reply 2 JsNull)"
    using parse_reply_text [of 2 JsNaN] by (simp add: reply_decimals)
  have "client_after (replayEventsAfter parse_reply env_ok ''s1_1000_0a1b2c3d'' (recorded send_quiet)
         \<lparr>pool = Connected, table = take 2 reply_table\<rparr> ([], ()))
       = ([(''s1_2000_1b2c3d4e'', Reply 2 JsNull)], ())"
    using sel parsed
    by (simp add: replayEventsAfter_def extractStreamId_def env_ok_def getDbPool_def
          recorded_apply send_quiet_def Let_def)
  with append show ?thesis by simp
qed

text \<open>
  C7. The claim: \<open>storeEvent\<close> fails with one error, StorageUnavailable, exactly when
  the pool cannot serve the write and with another, PersistenceFailure, for every
  other write fault, and never with a raw or swallowed error.

  The code has neither error: what a step throws is thrown on as it is. The theorem:
  \<open>storeEvent\<close> fails with an error exactly when JSON.stringify throws that error, when
  the pool cannot connect and \<open>pool.connect()\<close> rejects with it, or when the INSERT is
  rejected with it, by the driver or by the primary key.
\<close>

theorem storeEvent_rethrows:
  "fst (storeEvent stringify env streamId message st) = Inl err \<longleftrightarrow>
      stringify message = Inl err \<or>
      (\<exists>json. stringify message = Inr json \<and>
         (pool st = NoPool \<and> connect env = Some err \<or>
          (pool st = Connected \<or> connect env = None) \<and>
            (fault env = Some err \<or>
             fault env = None \<and>
             generateEventId streamId (now env) (uuid env) \<in> set (map EventId (table st)) \<and>
             err = RequestError ''Violation of PRIMARY KEY constraint'')))"
proof (cases "stringify message")
  case (Inl e)
  then show ?thesis by (auto simp: storeEvent_def Let_def)
next
  case (Inr json)
  show ?thesis
  proof (cases "pool st")
    case NoPool
    show ?thesis
    proof (cases "connect env")
      case None
      with Inr NoPool show ?thesis
        by (cases "fault env") (auto simp: storeEvent_def Let_def getDbPool_def insert_row_def)
    next
      case (Some e)
      with Inr NoPool show ?thesis
        by (auto simp: storeEvent_def Let_def getDbPool_def)
    qed
  next
    case Connected
    with Inr show ?thesis
      by (cases "fault env") (auto simp: storeEvent_def Let_def getDbPool_def insert_row_def)
  qed
qed

theorem storeEvent_rethrows_witness:
  "fst (storeEvent stringify_text env_pool_down ''s1'' ''A'' \<lparr>pool = NoPool, table = scenario_table\<rparr>)
     = Inl (ConnectionError ''ESOCKET'')"
  using storeEvent_rethrows [of stringify_text env_pool_down "''s1''" "''A''"
      "\<lparr>pool = NoPool, table = scenario_table\<rparr>" "ConnectionError ''ESOCKET''"]
  by (simp add: stringify_text_def env_pool_down_def)

text \<open>
  When the pool cannot connect, \<open>storeEvent\<close> throws the \<open>ConnectionError\<close> that
  \<open>pool.connect()\<close> rejected with; when the event id is in the table already, it throws
  the \<open>RequestError\<close> of the database. Neither is wrapped.
\<close>

theorem storeEvent_errors_counterexample:
  "connect env_pool_down = Some (ConnectionError ''ESOCKET'')
   \<and> fst (storeEvent stringify_text env_pool_down ''s1'' ''A'' \<lparr>pool = NoPool, table = []\<rparr>)
       = Inl (ConnectionError ''ESOCKET'')
   \<and> fst (storeEvent stringify_text (env_at 1000 ''0a1b2c3d-0000-4000-8000-000000000001'')
            ''s1'' ''A'' \<lparr>pool = Connected, table = scenario_table\<rparr>)
       = Inl (RequestError ''Violation of PRIMARY KEY constraint'')"
  by (simp add: storeEvent_def getDbPool_def insert_row_def stringify_text_def
        env_pool_down_def env_at_def generateEventId_def decimal_examples scenario_table_def Let_def)

text \<open>
  C10. The claim: an error thrown by \<open>send\<close> for one event is caught in the loop; the
  event is not counted as replayed, the error does not reach the caller, and delivery
  goes on with the remaining events.

  With the rows before the event leaving the count \<open>n1\<close> and the client state \<open>s1\<close>, and
  \<open>send\<close> throwing for the event on \<open>s1\<close>: the replay returns the stream id, the calls
  of \<open>send\<close> are those for the rows before, the one that threw, and those for the rows
  after, and the count logged is what the rows after make of \<open>n1\<close>.
\<close>

theorem replay_send_error_contained:
  assumes wellformed: "extractStreamId lastEventId \<noteq> []"
    and storage: "getDbPool (rconnect env) (pool st) = (Inr (), p)" "rfault env = None"
    and rows: "select_after (extractStreamId lastEventId) lastEventId (table st)
                 = Inr (pre @ (eventId, json) # post)"
    and parses: "parse json = Some m"
    and before: "replay_rows parse send pre (0, s) = (n1, s1)"
    and throws: "send eventId m s1 = (Some err, s2)"
  shows "replayEventsAfter parse env lastEventId (recorded send) st (history, s) =
           \<lparr>returned = Inr (extractStreamId lastEventId),
            replayedCount = Some (fst (replay_rows parse send post (n1, s2))),
            pool_after = p,
            client_after = (history @ deliverable parse pre @ (eventId, m) # deliverable parse post,
                            deliver_all send (deliverable parse post) s2)\<rparr>"
proof -
  have all: "replay_rows parse send (pre @ (eventId, json) # post) (0, s)
               = replay_rows parse send post (n1, s2)"
    using parses before throws by (simp add: replay_rows_append)
  have d: "deliverable parse (pre @ (eventId, json) # post)
             = deliverable parse pre @ (eventId, m) # deliverable parse post"
    using parses by (simp add: deliverable_append)
  have "deliver_all send (deliverable parse (pre @ (eventId, json) # post)) s
          = snd (replay_rows parse send (pre @ (eventId, json) # post) (0, s))"
    by (simp only: replay_rows_deliver_all)
  also have "\<dots> = deliver_all send (deliverable parse post) s2"
    by (simp only: all replay_rows_deliver_all)
  finally have s: "deliver_all send (deliverable parse pre @ (eventId, m) # deliverable parse post) s
                     = deliver_all send (deliverable parse post) s2"
    by (simp only: d)
  from replayEventsAfter_recorded [OF wellformed storage rows, of parse send history s]
  show ?thesis by (simp only: all d s)
qed

theorem replay_send_error_contained_witness:
  "select_after ''s1'' ''s1_1000_0a1b2c3d'' scenario_table
       = Inr [(''s1_2000_1b2c3d4e'', quoted ''B''), (''s1_4000_3d4e5f6a'', quoted ''C'')]
   \<and> send_failing_on ''s1_2000_1b2c3d4e'' ''s1_2000_1b2c3d4e'' ''B'' ()
       = (Some (TypeError ''write after end''), ())
   \<and> replayEventsAfter parse_text env_ok ''s1_1000_0a1b2c3d''
         (recorded (send_failing_on ''s1_2000_1b2c3d4e''))
         \<lparr>pool = Connected, table = scenario_table\<rparr> ([], ())
       = \<lparr>returned = Inr ''s1'', replayedCount = Some 1, pool_after = Connected,
          client_after = ([(''s1_2000_1b2c3d4e'', ''B''), (''s1_4000_3d4e5f6a'', ''C'')], ())\<rparr>"
proof -
  let ?st = "\<lparr>pool = Connected, table = scenario_table\<rparr>"
  let ?send = "send_failing_on ''s1_2000_1b2c3d4e''"
  have e: "extractStreamId ''s1_1000_0a1b2c3d'' = ''s1''"
    by (simp add: extractStreamId_def)
  have w: "extractStreamId ''s1_1000_0a1b2c3d'' \<noteq> []"
    by (simp add: e)
  have sel: "select_after ''s1'' ''s1_1000_0a1b2c3d'' scenario_table
       = Inr [(''s1_2000_1b2c3d4e'', quoted ''B''), (''s1_4000_3d4e5f6a'', quoted ''C'')]"
    by (simp add: select_after_def scenario_table_def)
  have rows: "select_after (extractStreamId ''s1_1000_0a1b2c3d'') ''s1_1000_0a1b2c3d'' (table ?st)
       = Inr ([] @ (''s1_2000_1b2c3d4e'', quoted ''B'') # [(''s1_4000_3d4e5f6a'', quoted ''C'')])"
    by (simp add: e sel)
  have parses: "parse_text (quoted ''B'') = Some ''B''"
    by (rule parse_text_quoted)
  have before: "replay_rows parse_text ?send [] (0, ()) = (0, ())"
    by simp
  have throws: "?send ''s1_2000_1b2c3d4e'' ''B'' () = (Some (TypeError ''write after end''), ())"
    by (simp add: send_failing_on_def)
  from replay_send_error_contained [where parse = parse_text and send = "send_failing_on ''s1_2000_1b2c3d4e''", OF w pool_ok [of scenario_table] fault_ok rows parses before throws, of "[]"]
    sel throws e
  show ?thesis by (simp add: parse_text_quoted send_failing_on_def)
qed

section \<open>The claims about the session registry\<close>

lemma uuid_not_inherited:
  assumes "is_uuid s"
  shows "s \<noteq> []" and "s \<notin> set object_prototype_keys"
proof -
  from assms have l: "length s = 36" by (simp add: is_uuid_def)
  then show "s \<noteq> []" by auto
  show "s \<notin> set object_prototype_keys"
  proof
    assume "s \<in> set object_prototype_keys"
    then have "length s < 36" by (auto simp: object_prototype_keys_def)
    with l show False by simp
  qed
qed

text \<open>
  A request with a session id that is neither registered nor a property of
  \<open>Object.prototype\<close> is answered with the error for an invalid session by both handlers,
  and the registry stays as it is.
\<close>

lemma unknown_session_rejected:
  assumes "header req = Some sid" and "sid \<noteq> []"
    and "reg sid = None" and "sid \<notin> set object_prototype_keys"
  shows "post_mcp handleRequest newSessionId connects req reg =
           (Json 400 (- 32000)
              ''Bad Request: No valid session ID provided or not an initialization request.'', reg)"
    and "handleSessionRequest handleRequest req reg = (Text 400 ''Invalid or missing session ID'', reg)"
  using assms by (simp_all add: post_mcp_def handleSessionRequest_def lookup_transport_def)

text \<open>
  C8. The claim: every request that presents a session id not in the registry is
  rejected with an invalid-session error, and no session or transport is created.

  For a session id that names a property of \<open>Object.prototype\<close> the lookup in the
  object \<open>transports\<close> is truthy although the registry is empty: both handlers take the
  value for a transport and answer 500, Internal Server Error, where the claim asks for
  the invalid-session error. No session is created.
\<close>

theorem inherited_key_answered_with_internal_error:
  "lookup_transport Map.empty ''constructor'' = Inherited
   \<and> post_mcp handleRequest newSessionId connects
         \<lparr>header = Some ''constructor'', initialize = b\<rparr> Map.empty
       = (Json 500 (- 32603) ''Internal Server Error'', Map.empty)
   \<and> handleSessionRequest handleRequest \<lparr>header = Some ''constructor'', initialize = b\<rparr> Map.empty
       = (Text 500 ''Internal Server Error'', Map.empty)"
  by (simp add: post_mcp_def handleSessionRequest_def lookup_transport_def object_prototype_keys_def)

text \<open>
  C9. The claim: after the close observer of a session fired, the lookup of its
  session id finds nothing, and a second close notification changes nothing and raises
  no error.

  A session id is what \<open>randomUUID()\<close> returned. After \<open>onclose\<close> the lookup is
  \<open>undefined\<close>, both handlers answer a request with that id as one without a valid
  session, and \<open>onclose\<close> once more leaves the registry as it is.
\<close>

theorem close_removes_session_once:
  assumes "sessionId tr = Some sid" and "is_uuid sid"
  shows "lookup_transport (onclose tr reg) sid = Undefined
       \<and> post_mcp handleRequest newSessionId connects
             \<lparr>header = Some sid, initialize = b\<rparr> (onclose tr reg)
           = (Json 400 (- 32000)
                ''Bad Request: No valid session ID provided or not an initialization request.'',
              onclose tr reg)
       \<and> handleSessionRequest handleRequest \<lparr>header = Some sid, initialize = b\<rparr> (onclose tr reg)
           = (Text 400 ''Invalid or missing session ID'', onclose tr reg)
       \<and> onclose tr (onclose tr reg) = onclose tr reg"
  using assms uuid_not_inherited [of sid]
  by (simp add: onclose_def lookup_transport_def post_mcp_def handleSessionRequest_def)

theorem close_removes_session_once_witness:
  "is_uuid ''0a1b2c3d-0000-4000-8000-000000000001''
   \<and> lookup_transport
        (onsessioninitialized
           \<lparr>sessionId = Some ''0a1b2c3d-0000-4000-8000-000000000001'',
            generator = ''0a1b2c3d-0000-4000-8000-000000000001''\<rparr>
           ''0a1b2c3d-0000-4000-8000-000000000001'' Map.empty)
        ''0a1b2c3d-0000-4000-8000-000000000001''
       = Own \<lparr>sessionId = Some ''0a1b2c3d-0000-4000-8000-000000000001'',
              generator = ''0a1b2c3d-0000-4000-8000-000000000001''\<rparr>
   \<and> lookup_transport
        (onclose
           \<lparr>sessionId = Some ''0a1b2c3d-0000-4000-8000-000000000001'',
            generator = ''0a1b2c3d-0000-4000-8000-000000000001''\<rparr>
           (onsessioninitialized
              \<lparr>sessionId = Some ''0a1b2c3d-0000-4000-8000-000000000001'',
               generator = ''0a1b2c3d-0000-4000-8000-000000000001''\<rparr>
              ''0a1b2c3d-0000-4000-8000-000000000001'' Map.empty))
        ''0a1b2c3d-0000-4000-8000-000000000001''
       = Undefined"
proof -
  let ?sid = "''0a1b2c3d-0000-4000-8000-000000000001''"
  let ?tr = "\<lparr>sessionId = Some ?sid, generator = ?sid\<rparr>"
  have u: "is_uuid ?sid"
    by (simp add: is_uuid_def)
  have s: "sessionId ?tr = Some ?sid"
    by simp
  from close_removes_session_once [OF s u, of "onsessioninitialized ?tr ?sid Map.empty"] u
  show ?thesis by (simp add: onsessioninitialized_def lookup_transport_def)
qed

end
